theory Spec2Isabelle
  imports Main "HOL-Library.Word"
begin

unbundle bit_operations_syntax

section \<open>Values of the program\<close>

text \<open>
  The program is \<^verbatim>\<open>src/bdli.py\<close>: a codec for the BDLI container (a header, a table
  of LBLI entries, a pool of 20-byte character records) and the loop of its main block
  that renders an entry's characters as annotated text.

  A Python \<^verbatim>\<open>bytes\<close> value is a list of 8-bit words. A Python \<^verbatim>\<open>str\<close> is a list of
  Unicode code points (natural numbers): the glyphs the program prints lie outside
  Latin-1, so HOL's 8-bit \<open>char\<close> cannot hold them. \<open>ascii\<close> reads a HOL string literal
  as such a list. Python integers are \<open>int\<close>. The pitch of a character is the
  IEEE-754 single that \<^verbatim>\<open>struct\<close> reads and writes; it is held as its 32-bit pattern,
  and the comparisons the renderer makes on it are defined on that pattern below.
\<close>

type_synonym bytes = "8 word list"
type_synonym str = "nat list"
type_synonym f32 = "32 word"

definition ascii :: "string \<Rightarrow> str" where
  "ascii cs = map of_char cs"

datatype error = AssertionError | StructError

subsection \<open>Formatting integers\<close>

text \<open>Python's \<^verbatim>\<open>str(n)\<close> of an integer: decimal digits, a minus sign when negative.\<close>

function dec_digits :: "nat \<Rightarrow> str" where
  "dec_digits n = (if n < 10 then [48 + n] else dec_digits (n div 10) @ [48 + n mod 10])"
  by pat_completeness auto
termination
  by (relation "measure id") auto

declare dec_digits.simps [simp del]

definition str_int :: "int \<Rightarrow> str" where
  "str_int n = (if n < 0 then 45 # dec_digits (nat (- n)) else dec_digits (nat n))"

text \<open>
  Python's \<^verbatim>\<open>format(n, '0wX')\<close>: uppercase hexadecimal digits, padded with zeros on
  the left to \<open>w\<close> characters; the sign of a negative number counts in the width and
  stands before the zeros.
\<close>

definition hex_digit :: "nat \<Rightarrow> nat" where
  "hex_digit d = (if d < 10 then 48 + d else 55 + d)"

function hex_digits :: "nat \<Rightarrow> str" where
  "hex_digits n =
     (if n < 16 then [hex_digit n] else hex_digits (n div 16) @ [hex_digit (n mod 16)])"
  by pat_completeness auto
termination
  by (relation "measure id") auto

declare hex_digits.simps [simp del]

definition zero_pad :: "nat \<Rightarrow> str \<Rightarrow> str" where
  "zero_pad w ds = replicate (w - length ds) 48 @ ds"

definition format_0X :: "nat \<Rightarrow> int \<Rightarrow> str" where
  "format_0X w n =
     (if n < 0 then 45 # zero_pad (w - 1) (hex_digits (nat (- n)))
      else zero_pad w (hex_digits (nat n)))"

subsection \<open>The struct module, little-endian and unpadded\<close>

fun pack_le :: "nat \<Rightarrow> nat \<Rightarrow> bytes" where
  "pack_le 0 n = []"
| "pack_le (Suc k) n = of_nat (n mod 256) # pack_le k (n div 256)"

fun unpack_le :: "bytes \<Rightarrow> nat" where
  "unpack_le [] = 0"
| "unpack_le (b # bs) = unat b + 256 * unpack_le bs"

text \<open>
  One argument of \<^verbatim>\<open>struct.pack\<close> with its format character: \<^verbatim>\<open>H\<close>, \<^verbatim>\<open>I\<close> or \<^verbatim>\<open>f\<close>.
  An integer outside the range of its format raises \<^verbatim>\<open>struct.error\<close>.
\<close>

datatype field = H int | I int | F f32

fun pack_field :: "field \<Rightarrow> error + bytes" where
  "pack_field (H n) = (if 0 \<le> n \<and> n < 2 ^ 16 then Inr (pack_le 2 (nat n)) else Inl StructError)"
| "pack_field (I n) = (if 0 \<le> n \<and> n < 2 ^ 32 then Inr (pack_le 4 (nat n)) else Inl StructError)"
| "pack_field (F x) = Inr (pack_le 4 (unat x))"

fun struct_pack :: "field list \<Rightarrow> error + bytes" where
  "struct_pack [] = Inr []"
| "struct_pack (x # xs) =
     (case pack_field x of
        Inl e \<Rightarrow> Inl e
      | Inr b \<Rightarrow> (case struct_pack xs of Inl e \<Rightarrow> Inl e | Inr bs \<Rightarrow> Inr (b @ bs)))"

text \<open>The unsigned integer of \<open>k\<close> bytes at an offset, and the single at an offset.\<close>

definition uint_at :: "nat \<Rightarrow> bytes \<Rightarrow> nat \<Rightarrow> nat" where
  "uint_at k blob offset = unpack_le (take k (drop offset blob))"

definition f32_at :: "bytes \<Rightarrow> nat \<Rightarrow> f32" where
  "f32_at blob offset = of_nat (uint_at 4 blob offset)"

text \<open>
  \<^verbatim>\<open>struct.unpack_from\<close> for the three formats the program reads. It raises
  \<^verbatim>\<open>struct.error\<close> when the buffer holds fewer bytes past the offset than the format's
  size (17, 12 and 16 bytes).
\<close>

definition unpack_from_IIIfB :: "bytes \<Rightarrow> nat \<Rightarrow> error + (nat \<times> nat \<times> nat \<times> f32 \<times> nat)" where
  "unpack_from_IIIfB blob offset =
     (if length blob < offset + 17 then Inl StructError
      else Inr (uint_at 4 blob offset, uint_at 4 blob (offset + 4), uint_at 4 blob (offset + 8),
                f32_at blob (offset + 12), uint_at 1 blob (offset + 16)))"

definition unpack_from_III :: "bytes \<Rightarrow> nat \<Rightarrow> error + (nat \<times> nat \<times> nat)" where
  "unpack_from_III blob offset =
     (if length blob < offset + 12 then Inl StructError
      else Inr (uint_at 4 blob offset, uint_at 4 blob (offset + 4), uint_at 4 blob (offset + 8)))"

definition unpack_from_HHIII :: "bytes \<Rightarrow> nat \<Rightarrow> error + (nat \<times> nat \<times> nat \<times> nat \<times> nat)" where
  "unpack_from_HHIII blob offset =
     (if length blob < offset + 16 then Inl StructError
      else Inr (uint_at 2 blob offset, uint_at 2 blob (offset + 2), uint_at 4 blob (offset + 4),
                uint_at 4 blob (offset + 8), uint_at 4 blob (offset + 12)))"

text \<open>A \<^verbatim>\<open>for\<close> loop that appends \<open>f x\<close> for each \<open>x\<close> and stops at the first exception.\<close>

fun for_append :: "('a \<Rightarrow> error + 'b) \<Rightarrow> 'a list \<Rightarrow> error + 'b list" where
  "for_append f [] = Inr []"
| "for_append f (x # xs) =
     (case f x of
        Inl e \<Rightarrow> Inl e
      | Inr y \<Rightarrow> (case for_append f xs of Inl e \<Rightarrow> Inl e | Inr ys \<Rightarrow> Inr (y # ys)))"

subsection \<open>Comparing singles\<close>

text \<open>
  A single is a NaN when its exponent bits are all set and its fraction is not zero.
  Two singles that are not NaN compare as their sign-and-magnitude integers do (both
  zeros give 0); every comparison with a NaN is false, so \<^verbatim>\<open>!=\<close> with a NaN is true.
\<close>

definition f32_is_nan :: "f32 \<Rightarrow> bool" where
  "f32_is_nan x = (uint (x AND 0x7FFFFFFF) > 0x7F800000)"

definition f32_key :: "f32 \<Rightarrow> int" where
  "f32_key x = (if bit x 31 then - uint (x AND 0x7FFFFFFF) else uint (x AND 0x7FFFFFFF))"

definition f32_eq :: "f32 \<Rightarrow> f32 \<Rightarrow> bool" where
  "f32_eq x y = (\<not> f32_is_nan x \<and> \<not> f32_is_nan y \<and> f32_key x = f32_key y)"

definition f32_lt :: "f32 \<Rightarrow> f32 \<Rightarrow> bool" where
  "f32_lt x y = (\<not> f32_is_nan x \<and> \<not> f32_is_nan y \<and> f32_key x < f32_key y)"

definition f32_0 :: f32 where "f32_0 = 0"
definition f32_1 :: f32 where "f32_1 = 0x3F800000"
definition f32_2 :: f32 where "f32_2 = 0x40000000"

section \<open>The data model\<close>

record LBLILabel =
  hash :: int
  name :: "str option"

record LBLIChar =
  "value" :: int
  volume :: int
  pitch :: f32

record LBLI =
  label :: LBLILabel
  chars :: "LBLIChar list"

record BDLI =
  lbli :: "LBLI list"

subsection \<open>Labels\<close>

text \<open>The module's dictionary \<^verbatim>\<open>hashes\<close> is passed to the functions that read it.\<close>

definition from_hash :: "(int \<rightharpoonup> str) \<Rightarrow> int \<Rightarrow> LBLILabel" where
  "from_hash hashes hash' =
     (case hashes hash' of
        Some n \<Rightarrow> \<lparr>hash = hash', name = Some n\<rparr>
      | None \<Rightarrow> \<lparr>hash = hash', name = None\<rparr>)"

text \<open>\<^verbatim>\<open>hashes[h] = x\<close>, as the main block registers a label.\<close>

definition register :: "(int \<rightharpoonup> str) \<Rightarrow> int \<Rightarrow> str \<Rightarrow> (int \<rightharpoonup> str)" where
  "register hashes h x = hashes(h \<mapsto> x)"

text \<open>\<^verbatim>\<open>__str__\<close>: the name when it is truthy (neither None nor empty).\<close>

definition LBLILabel_str :: "LBLILabel \<Rightarrow> str" where
  "LBLILabel_str l =
     (case name l of
        Some n \<Rightarrow> (if n \<noteq> [] then n else 95 # format_0X 8 (hash l))
      | None \<Rightarrow> 95 # format_0X 8 (hash l))"

subsection \<open>Character records\<close>

definition LBLIChar_SIZE :: nat where "LBLIChar_SIZE = 0x14"

definition LBLIChar_load :: "bytes \<Rightarrow> nat \<Rightarrow> error + LBLIChar" where
  "LBLIChar_load blob offset =
     (if \<not> length blob \<ge> offset + LBLIChar_SIZE then Inl AssertionError
      else case unpack_from_IIIfB blob offset of
        Inl e \<Rightarrow> Inl e
      | Inr (value', volume', x08, pitch', b10) \<Rightarrow>
          if \<not> x08 = 0 then Inl AssertionError
          else if \<not> b10 = 0 then Inl AssertionError
          else Inr \<lparr>value = int value', volume = int volume', pitch = pitch'\<rparr>)"

definition LBLIChar_dump :: "LBLIChar \<Rightarrow> error + bytes" where
  "LBLIChar_dump c = struct_pack [I (value c), I (volume c), I 0, F (pitch c), I 0]"

definition LOOKUP :: "(int \<times> str) list" where
  "LOOKUP =
     [(0x9d, [0x30fc]),
      (0x9e, [0x2026]),
      (0x9f, ascii ''[Monology]''),
      (0xa0, [0xff1f]),
      (0xa1, [0xff01]),
      (0xa2, [0x3001]),
      (0xa3, [0x3002]),
      (0xa4, [0x3000]),
      (0xa5, [0x30fb]),
      (0xa6, [10]),
      (0xa7, [10, 10]),
      (0xda, []),
      (0xde, []),
      (0x10d, [])]"

definition get_char :: "LBLIChar \<Rightarrow> str" where
  "get_char c =
     (if 0x01 \<le> value c \<and> value c \<le> 0x56 then [nat (0x3040 + value c)]
      else if 0x57 \<le> value c \<and> value c \<le> 0x60 then [nat (0x30 + value c - 0x57)]
      else if 0x61 \<le> value c \<and> value c \<le> 0x7a then [nat (value c)]
      else case map_of LOOKUP (value c) of
        Some g \<Rightarrow> g
      | None \<Rightarrow> ascii ''['' @ format_0X 3 (value c) @ ascii '']'')"

subsection \<open>Entries\<close>

definition LBLI_MAGIC :: bytes where "LBLI_MAGIC = [0x4C, 0x42, 0x4C, 0x49]"
definition LBLI_SIZE :: nat where "LBLI_SIZE = 0x10"

definition LBLI_load :: "(int \<rightharpoonup> str) \<Rightarrow> bytes \<Rightarrow> nat \<Rightarrow> error + LBLI" where
  "LBLI_load hashes blob offset =
     (if \<not> length blob \<ge> offset + LBLI_SIZE then Inl AssertionError
      else let magic = take 4 (drop offset blob) in
        case unpack_from_III blob (offset + 4) of
          Inl e \<Rightarrow> Inl e
        | Inr (char_count, char_offset, label_hash) \<Rightarrow>
            if \<not> magic = LBLI_MAGIC then Inl AssertionError
            else let label' = from_hash hashes (int label_hash) in
              (case for_append (\<lambda>i. LBLIChar_load blob (offset + char_offset + LBLIChar_SIZE * i))
                      [0..<char_count] of
                 Inl e \<Rightarrow> Inl e
               | Inr chars' \<Rightarrow> Inr \<lparr>label = label', chars = chars'\<rparr>))"

definition LBLI_dump :: "LBLI \<Rightarrow> int \<Rightarrow> error + bytes" where
  "LBLI_dump l chars_offset =
     (case struct_pack [I (int (length (chars l))), I chars_offset, I (hash (label l))] of
        Inl e \<Rightarrow> Inl e
      | Inr b \<Rightarrow> Inr (LBLI_MAGIC @ b))"

subsection \<open>Containers\<close>

definition BDLI_MAGIC :: bytes where "BDLI_MAGIC = [0x42, 0x44, 0x4C, 0x49]"
definition BDLI_SIZE :: nat where "BDLI_SIZE = 0x14"

definition BDLI_load :: "(int \<rightharpoonup> str) \<Rightarrow> bytes \<Rightarrow> nat \<Rightarrow> error + BDLI" where
  "BDLI_load hashes blob offset =
     (if \<not> length blob \<ge> offset + BDLI_SIZE then Inl AssertionError
      else let magic = take 4 (drop offset blob) in
        case unpack_from_HHIII blob (offset + 4) of
          Inl e \<Rightarrow> Inl e
        | Inr (version, lbli_count, x8, lbli_offset, char_offset) \<Rightarrow>
            if \<not> magic = BDLI_MAGIC then Inl AssertionError
            else if \<not> version = 2 then Inl AssertionError
            else if \<not> x8 = 0 then Inl AssertionError
            else (case for_append (\<lambda>i. LBLI_load hashes blob (offset + lbli_offset + LBLI_SIZE * i))
                         [0..<lbli_count] of
                    Inl e \<Rightarrow> Inl e
                  | Inr lbli' \<Rightarrow> Inr \<lparr>lbli = lbli'\<rparr>))"

text \<open>
  The loop of \<^verbatim>\<open>BDLI.dump\<close>, with its four variables: the entry table and the
  character pool built so far, and the two running offsets.
\<close>

fun dump_loop :: "LBLI list \<Rightarrow> bytes list \<Rightarrow> bytes list \<Rightarrow> nat \<Rightarrow> nat \<Rightarrow> error + (bytes list \<times> bytes list)" where
  "dump_loop [] lblis chars' lbli_offset char_offset = Inr (lblis, chars')"
| "dump_loop (l # ls) lblis chars' lbli_offset char_offset =
     (case LBLI_dump l (int char_offset - int lbli_offset) of
        Inl e \<Rightarrow> Inl e
      | Inr b \<Rightarrow>
          (case for_append LBLIChar_dump (chars l) of
             Inl e \<Rightarrow> Inl e
           | Inr cs \<Rightarrow>
               dump_loop ls (lblis @ [b]) (chars' @ cs) (lbli_offset + LBLI_SIZE)
                 (char_offset + length (chars l) * LBLIChar_SIZE)))"

definition BDLI_dump :: "BDLI \<Rightarrow> error + bytes" where
  "BDLI_dump c =
     (let num_lbli = length (lbli c);
          lbli_offset = BDLI_SIZE;
          char_offset = lbli_offset + num_lbli * LBLI_SIZE
      in case struct_pack [H 2, H (int num_lbli), I 0, I (int lbli_offset), I (int char_offset)] of
        Inl e \<Rightarrow> Inl e
      | Inr h \<Rightarrow>
          (case dump_loop (lbli c) [] [] lbli_offset char_offset of
             Inl e \<Rightarrow> Inl e
           | Inr (lblis, chars') \<Rightarrow> Inr (concat ([BDLI_MAGIC, h] @ lblis @ chars'))))"

section \<open>The renderer\<close>

text \<open>
  The inner loop of the main block, over the characters of one entry. Its variables are
  the text \<open>s\<close>, the running volume \<open>vol\<close> and the running pitch; the function returns
  all three as they stand after the last character. Python's conversion of a float to
  text (in \<^verbatim>\<open>f'[{c.pitch}]'\<close>) is the parameter \<open>float_str\<close>.
\<close>

definition up_arrow :: str where "up_arrow = [0x2191]"
definition down_arrow :: str where "down_arrow = [0x2193]"

fun render_loop :: "(f32 \<Rightarrow> str) \<Rightarrow> str \<Rightarrow> int \<Rightarrow> f32 \<Rightarrow> LBLIChar list \<Rightarrow> str \<times> int \<times> f32" where
  "render_loop float_str s vol pitch' [] = (s, vol, pitch')"
| "render_loop float_str s vol pitch' (c # cs) =
     (let s1 = (if volume c \<noteq> vol
                then s @ (if vol \<noteq> 100 then ascii ''{/volume}'' else [])
                       @ (if volume c \<noteq> 100 then ascii ''{volume='' @ str_int (volume c) @ ascii ''}'' else [])
                else s);
          vol1 = (if volume c \<noteq> vol then volume c else vol);
          s2 = (if \<not> f32_eq (pitch c) pitch' \<and> \<not> f32_eq (pitch c) f32_0
                then s1 @ ascii ''['' @ float_str (pitch c) @ ascii '']''
                        @ (if f32_lt pitch' (pitch c) then up_arrow else [])
                        @ (if f32_lt (pitch c) pitch' then down_arrow else [])
                else s1)
      in render_loop float_str (s2 @ get_char c) vol1 (pitch c) cs)"

definition render :: "(f32 \<Rightarrow> str) \<Rightarrow> LBLIChar list \<Rightarrow> str" where
  "render float_str cs = fst (render_loop float_str [] 100 f32_1 cs)"

text \<open>
  Python's text for a single that holds an integer below \<open>10 ^ 16\<close> in magnitude: the
  decimal digits of the integer, then \<^verbatim>\<open>.0\<close> (so \<^verbatim>\<open>1.0\<close>, \<^verbatim>\<open>2.0\<close>, \<^verbatim>\<open>-3.0\<close>). It stands
  for \<open>float_str\<close> where a concrete run is evaluated, on such pitches only.
\<close>

definition f32_trunc :: "f32 \<Rightarrow> nat" where
  "f32_trunc x =
     (let e = unat (drop_bit 23 x AND 0xFF); m = unat (x AND 0x7FFFFF) in
      if e = 0 then 0
      else if e \<le> 150 then (2 ^ 23 + m) div 2 ^ (150 - e)
      else (2 ^ 23 + m) * 2 ^ (e - 150))"

definition float_str_integral :: "f32 \<Rightarrow> str" where
  "float_str_integral x =
     (if bit x 31 then [45] else []) @ dec_digits (f32_trunc x) @ ascii ''.0''"

section \<open>Reading digits back\<close>

text \<open>
  The characters \<^verbatim>\<open>0\<close> to \<^verbatim>\<open>9\<close> and \<^verbatim>\<open>A\<close> to \<^verbatim>\<open>F\<close>, and the number a text of such
  characters denotes in base 16. The theorems on the label's display form and on the
  glyph placeholder use them to say what the formatted digits are.
\<close>

definition is_upper_hex :: "nat \<Rightarrow> bool" where
  "is_upper_hex ch = (48 \<le> ch \<and> ch \<le> 57 \<or> 65 \<le> ch \<and> ch \<le> 70)"

definition hex_digit_value :: "nat \<Rightarrow> nat" where
  "hex_digit_value ch = (if ch \<le> 57 then ch - 48 else ch - 55)"

definition hex_value :: "str \<Rightarrow> nat" where
  "hex_value ds = foldl (\<lambda>a ch. 16 * a + hex_digit_value ch) 0 ds"

section \<open>Little-endian bytes, written out\<close>

text \<open>
  The four bytes of a 32-bit number, least significant first, and the number that four
  consecutive bytes of a blob hold in that order. The theorems on the layout of a
  character record are stated with them.
\<close>

definition le_bytes32 :: "nat \<Rightarrow> bytes" where
  "le_bytes32 n =
     [of_nat (n mod 256), of_nat (n div 256 mod 256), of_nat (n div 65536 mod 256),
      of_nat (n div 16777216 mod 256)]"

definition le_read32 :: "bytes \<Rightarrow> nat \<Rightarrow> nat" where
  "le_read32 blob i =
     unat (blob ! i) + 256 * unat (blob ! (i + 1)) + 65536 * unat (blob ! (i + 2))
       + 16777216 * unat (blob ! (i + 3))"

section \<open>Containers that fit the format, and the blob of one\<close>

text \<open>
  A character record fits the format when its value and volume are 32-bit numbers, an
  entry when its label hash is one and its records fit. \<open>resolve_entry\<close> is an
  entry with its label looked up again in the dictionary, as \<open>LBLI_load\<close> builds it.
\<close>

definition wf_char :: "LBLIChar \<Rightarrow> bool" where
  "wf_char c = (0 \<le> value c \<and> value c < 2 ^ 32 \<and> 0 \<le> volume c \<and> volume c < 2 ^ 32)"

definition wf_entry :: "LBLI \<Rightarrow> bool" where
  "wf_entry l = (0 \<le> hash (label l) \<and> hash (label l) < 2 ^ 32 \<and> (\<forall>c \<in> set (chars l). wf_char c))"

definition total_chars :: "LBLI list \<Rightarrow> nat" where
  "total_chars ls = sum_list (map (\<lambda>l. length (chars l)) ls)"


text \<open>
  A container is encodable when \<open>BDLI_dump\<close> can pack every number it writes: fewer than
  \<open>2 ^ 16\<close> entries, and for every entry a label hash, record values and volumes, a
  record count and a relative offset below \<open>2 ^ 32\<close>. The relative offset of entry \<open>i\<close>
  is the distance from its slot in the entry table to its first record: the 16-byte
  slots from \<open>i\<close> on, and the 20-byte records of the entries before it.
\<close>

definition rel_offset :: "LBLI list \<Rightarrow> nat \<Rightarrow> nat" where
  "rel_offset ls i = 16 * (length ls - i) + 20 * total_chars (take i ls)"

definition encodable :: "BDLI \<Rightarrow> bool" where
  "encodable c =
     (length (lbli c) < 2 ^ 16
      \<and> (\<forall>i < length (lbli c).
            wf_entry (lbli c ! i) \<and> length (chars (lbli c ! i)) < 2 ^ 32
            \<and> rel_offset (lbli c) i < 2 ^ 32))"


text \<open>
  The same condition as the loop of \<open>BDLI_dump\<close> meets it, entry by entry, with the two
  running offsets.
\<close>

fun fits :: "LBLI list \<Rightarrow> nat \<Rightarrow> nat \<Rightarrow> bool" where
  "fits [] lo co = True"
| "fits (l # ls) lo co =
     (wf_entry l \<and> length (chars l) < 2 ^ 32 \<and> co - lo < 2 ^ 32
      \<and> fits ls (lo + 16) (co + 20 * length (chars l)))"

text \<open>
  The bytes \<open>BDLI_dump\<close> is proved to write: the header, then one 16-byte table entry
  per entry, then the 20-byte records of all entries. \<open>entry_table\<close> follows the two
  running offsets of the loop.
\<close>

definition char_bytes :: "LBLIChar \<Rightarrow> bytes" where
  "char_bytes c =
     pack_le 4 (nat (value c)) @ pack_le 4 (nat (volume c)) @ pack_le 4 0
       @ pack_le 4 (unat (pitch c)) @ pack_le 4 0"

definition pool_bytes :: "LBLI \<Rightarrow> bytes" where
  "pool_bytes l = concat (map char_bytes (chars l))"

definition entry_bytes :: "LBLI \<Rightarrow> nat \<Rightarrow> bytes" where
  "entry_bytes l rel =
     LBLI_MAGIC @ pack_le 4 (length (chars l)) @ pack_le 4 rel @ pack_le 4 (nat (hash (label l)))"

fun entry_table :: "LBLI list \<Rightarrow> nat \<Rightarrow> nat \<Rightarrow> bytes list" where
  "entry_table [] lo co = []"
| "entry_table (l # ls) lo co =
     entry_bytes l (co - lo) # entry_table ls (lo + 16) (co + 20 * length (chars l))"

definition header_bytes :: "nat \<Rightarrow> bytes" where
  "header_bytes n =
     BDLI_MAGIC @ pack_le 2 2 @ pack_le 2 n @ pack_le 4 0 @ pack_le 4 20 @ pack_le 4 (20 + 16 * n)"

section \<open>Formatting lemmas\<close>

lemma hex_digit_value_digit: "d < 16 \<Longrightarrow> hex_digit_value (hex_digit d) = d"
  by (simp add: hex_digit_value_def hex_digit_def)

lemma hex_digit_range: "d < 16 \<Longrightarrow> is_upper_hex (hex_digit d)"
  by (simp add: hex_digit_def is_upper_hex_def)

lemma hex_value_snoc: "hex_value (ds @ [ch]) = 16 * hex_value ds + hex_digit_value ch"
  by (simp add: hex_value_def)

lemma hex_value_hex_digits: "hex_value (hex_digits n) = n"
proof (induction n rule: hex_digits.induct)
  case (1 n)
  show ?case
  proof (cases "n < 16")
    case True
    then show ?thesis
      by (subst hex_digits.simps) (simp add: hex_value_def hex_digit_value_digit)
  next
    case False
    with 1 show ?thesis
      by (subst hex_digits.simps) (simp add: hex_value_snoc hex_digit_value_digit)
  qed
qed

lemma hex_digits_set: "ch \<in> set (hex_digits n) \<Longrightarrow> is_upper_hex ch"
proof (induction n rule: hex_digits.induct)
  case (1 n)
  show ?case
  proof (cases "n < 16")
    case True
    with 1(2) show ?thesis
      using hex_digit_range [of n] by (subst (asm) hex_digits.simps) simp
  next
    case False
    with 1 show ?thesis
      using hex_digit_range [of "n mod 16"] by (subst (asm) hex_digits.simps) auto
  qed
qed

lemma hex_digits_length: "n < 16 ^ Suc k \<Longrightarrow> length (hex_digits n) \<le> Suc k"
proof (induction k arbitrary: n)
  case 0
  then show ?case by (subst hex_digits.simps) simp
next
  case (Suc k)
  show ?case
  proof (cases "n < 16")
    case True
    then show ?thesis by (subst hex_digits.simps) simp
  next
    case False
    from Suc.prems have "n div 16 < 16 ^ Suc k" by (simp add: less_mult_imp_div_less)
    with Suc.IH have "length (hex_digits (n div 16)) \<le> Suc k" by blast
    with False show ?thesis by (subst hex_digits.simps) simp
  qed
qed

lemma hex_value_zero_pad: "hex_value (zero_pad w ds) = hex_value ds"
proof -
  have "foldl (\<lambda>a ch. 16 * a + hex_digit_value ch) 0 (replicate k 48) = 0" for k
    by (induction k) (simp_all add: hex_digit_value_def)
  then show ?thesis by (simp add: hex_value_def zero_pad_def)
qed

lemma zero_pad_set: "set (zero_pad w ds) \<subseteq> insert 48 (set ds)"
  by (auto simp: zero_pad_def)

lemma zero_pad_length: "length ds \<le> w \<Longrightarrow> length (zero_pad w ds) = w"
  by (simp add: zero_pad_def)

lemma format_0X_8:
  assumes "0 \<le> h" "h < 2 ^ 32"
  shows "length (format_0X 8 h) = 8"
    and "\<forall>ch \<in> set (format_0X 8 h). is_upper_hex ch"
    and "int (hex_value (format_0X 8 h)) = h"
proof -
  from assms have "nat h < 16 ^ Suc 7" by (simp add: nat_less_iff)
  then have "length (hex_digits (nat h)) \<le> 8" using hex_digits_length [of "nat h" 7] by simp
  with assms show "length (format_0X 8 h) = 8" by (simp add: format_0X_def zero_pad_length)
  have "is_upper_hex 48" by (simp add: is_upper_hex_def)
  with assms show "\<forall>ch \<in> set (format_0X 8 h). is_upper_hex ch"
    using zero_pad_set [of 8 "hex_digits (nat h)"] hex_digits_set [of _ "nat h"]
    by (auto simp: format_0X_def)
  from assms show "int (hex_value (format_0X 8 h)) = h"
    by (simp add: format_0X_def hex_value_zero_pad hex_value_hex_digits)
qed


lemma replicate_numeral: "replicate (numeral k) x = x # replicate (pred_numeral k) x"
  by (simp add: numeral_eq_Suc)

lemma dec_digits_digit: "n < 10 \<Longrightarrow> dec_digits n = [48 + n]"
  by (subst dec_digits.simps) simp

lemma hex_digits_3:
  assumes "n < 16 ^ 3"
  shows "length (zero_pad 3 (hex_digits n)) = 3"
  using hex_digits_length [of n 2] assms by (simp add: zero_pad_length)

section \<open>The glyph map\<close>

text \<open>
  Claim C6. \<open>get_char\<close> is a function of the character value alone and follows the
  range table: values 0x01 to 0x56 give the code point 0x3040 + value, 0x57 to 0x60 the
  ASCII digit of value - 0x57, 0x61 to 0x7A the code point of the value itself, the
  listed punctuation and control codes their fixed texts, 0xDA, 0xDE and 0x10D the empty
  text. Every other value from 0x00 to 0x10D gives a bracketed placeholder of exactly
  three uppercase hexadecimal digits that denote the value, and 0x200 gives \<^verbatim>\<open>[200]\<close>.
\<close>

theorem get_char_table:
  "(0x01 \<le> value c \<and> value c \<le> 0x56 \<longrightarrow> get_char c = [nat (0x3040 + value c)])
   \<and> (0x57 \<le> value c \<and> value c \<le> 0x60 \<longrightarrow> get_char c = str_int (value c - 0x57))
   \<and> (0x61 \<le> value c \<and> value c \<le> 0x7A \<longrightarrow> get_char c = [nat (value c)])
   \<and> (value c = 0x9D \<longrightarrow> get_char c = [0x30FC])
   \<and> (value c = 0x9E \<longrightarrow> get_char c = [0x2026])
   \<and> (value c = 0x9F \<longrightarrow> get_char c = ascii ''[Monology]'')
   \<and> (value c = 0xA0 \<longrightarrow> get_char c = [0xFF1F])
   \<and> (value c = 0xA1 \<longrightarrow> get_char c = [0xFF01])
   \<and> (value c = 0xA2 \<longrightarrow> get_char c = [0x3001])
   \<and> (value c = 0xA3 \<longrightarrow> get_char c = [0x3002])
   \<and> (value c = 0xA4 \<longrightarrow> get_char c = [0x3000])
   \<and> (value c = 0xA5 \<longrightarrow> get_char c = [0x30FB])
   \<and> (value c = 0xA6 \<longrightarrow> get_char c = ascii [CHR 0x0A])
   \<and> (value c = 0xA7 \<longrightarrow> get_char c = ascii [CHR 0x0A, CHR 0x0A])
   \<and> (value c = 0xDA \<or> value c = 0xDE \<or> value c = 0x10D \<longrightarrow> get_char c = [])
   \<and> (value c = 0 \<or> 0x7B \<le> value c \<and> value c \<le> 0x9C \<or> 0xA8 \<le> value c \<and> value c \<le> 0xD9
        \<or> 0xDB \<le> value c \<and> value c \<le> 0xDD \<or> 0xDF \<le> value c \<and> value c \<le> 0x10C \<longrightarrow>
        get_char c = ascii ''['' @ format_0X 3 (value c) @ ascii '']''
        \<and> length (format_0X 3 (value c)) = 3
        \<and> (\<forall>ch \<in> set (format_0X 3 (value c)). is_upper_hex ch)
        \<and> int (hex_value (format_0X 3 (value c))) = value c)
   \<and> (value c = 0x200 \<longrightarrow> get_char c = ascii ''[200]'')"
proof -
  have digits: "get_char c = str_int (value c - 0x57)" if "0x57 \<le> value c" "value c \<le> 0x60"
  proof -
    from that have "nat (value c - 0x57) < 10" by simp
    then have "dec_digits (nat (value c - 0x57)) = [48 + nat (value c - 0x57)]"
      by (rule dec_digits_digit)
    with that show ?thesis by (simp add: get_char_def str_int_def nat_add_distrib nat_diff_distrib)
  qed
  have other: "get_char c = ascii ''['' @ format_0X 3 (value c) @ ascii '']''
        \<and> length (format_0X 3 (value c)) = 3
        \<and> (\<forall>ch \<in> set (format_0X 3 (value c)). is_upper_hex ch)
        \<and> int (hex_value (format_0X 3 (value c))) = value c"
    if "value c = 0 \<or> 0x7B \<le> value c \<and> value c \<le> 0x9C \<or> 0xA8 \<le> value c \<and> value c \<le> 0xD9
        \<or> 0xDB \<le> value c \<and> value c \<le> 0xDD \<or> 0xDF \<le> value c \<and> value c \<le> 0x10C"
  proof -
    from that have nn: "0 \<le> value c" and lt: "nat (value c) < 16 ^ 3" by auto
    from that have "map_of LOOKUP (value c) = None" by (auto simp: LOOKUP_def)
    with that have 1: "get_char c = ascii ''['' @ format_0X 3 (value c) @ ascii '']''"
      by (auto simp: get_char_def)
    from nn lt have 2: "length (format_0X 3 (value c)) = 3"
      using hex_digits_3 [of "nat (value c)"] by (simp add: format_0X_def)
    have "is_upper_hex 48" by (simp add: is_upper_hex_def)
    with nn have 3: "\<forall>ch \<in> set (format_0X 3 (value c)). is_upper_hex ch"
      using zero_pad_set [of 3 "hex_digits (nat (value c))"] hex_digits_set [of _ "nat (value c)"]
      by (auto simp: format_0X_def)
    from nn have 4: "int (hex_value (format_0X 3 (value c))) = value c"
      by (simp add: format_0X_def hex_value_zero_pad hex_value_hex_digits)
    from 1 2 3 4 show ?thesis by blast
  qed
  have out: "get_char c = ascii ''[200]''" if "value c = 0x200"
    using that
    by (simp add: get_char_def LOOKUP_def ascii_def format_0X_def zero_pad_def
        hex_digits.simps [of 512] hex_digits.simps [of 32] hex_digits.simps [of 2] hex_digit_def)
  have tab: "(0x01 \<le> value c \<and> value c \<le> 0x56 \<longrightarrow> get_char c = [nat (0x3040 + value c)])
   \<and> (0x61 \<le> value c \<and> value c \<le> 0x7A \<longrightarrow> get_char c = [nat (value c)])
   \<and> (value c = 0x9D \<longrightarrow> get_char c = [0x30FC])
   \<and> (value c = 0x9E \<longrightarrow> get_char c = [0x2026])
   \<and> (value c = 0x9F \<longrightarrow> get_char c = ascii ''[Monology]'')
   \<and> (value c = 0xA0 \<longrightarrow> get_char c = [0xFF1F])
   \<and> (value c = 0xA1 \<longrightarrow> get_char c = [0xFF01])
   \<and> (value c = 0xA2 \<longrightarrow> get_char c = [0x3001])
   \<and> (value c = 0xA3 \<longrightarrow> get_char c = [0x3002])
   \<and> (value c = 0xA4 \<longrightarrow> get_char c = [0x3000])
   \<and> (value c = 0xA5 \<longrightarrow> get_char c = [0x30FB])
   \<and> (value c = 0xA6 \<longrightarrow> get_char c = ascii [CHR 0x0A])
   \<and> (value c = 0xA7 \<longrightarrow> get_char c = ascii [CHR 0x0A, CHR 0x0A])
   \<and> (value c = 0xDA \<or> value c = 0xDE \<or> value c = 0x10D \<longrightarrow> get_char c = [])"
    by (simp add: get_char_def LOOKUP_def ascii_def)
  from digits other out show ?thesis using tab by simp
qed

text \<open>The table at one value of each row.\<close>

theorem get_char_table_witness:
  "get_char \<lparr>value = 0x01, volume = 100, pitch = f32_1\<rparr> = [0x3041]
   \<and> get_char \<lparr>value = 0x56, volume = 100, pitch = f32_1\<rparr> = [0x3096]
   \<and> get_char \<lparr>value = 0x57, volume = 100, pitch = f32_1\<rparr> = ascii ''0''
   \<and> get_char \<lparr>value = 0x60, volume = 100, pitch = f32_1\<rparr> = ascii ''9''
   \<and> get_char \<lparr>value = 0x61, volume = 100, pitch = f32_1\<rparr> = ascii ''a''
   \<and> get_char \<lparr>value = 0x7A, volume = 100, pitch = f32_1\<rparr> = ascii ''z''
   \<and> get_char \<lparr>value = 0x9F, volume = 100, pitch = f32_1\<rparr> = ascii ''[Monology]''
   \<and> get_char \<lparr>value = 0xA3, volume = 100, pitch = f32_1\<rparr> = [0x3002]
   \<and> get_char \<lparr>value = 0x10D, volume = 100, pitch = f32_1\<rparr> = []
   \<and> get_char \<lparr>value = 0x00, volume = 100, pitch = f32_1\<rparr> = ascii ''[000]''
   \<and> get_char \<lparr>value = 0x9C, volume = 100, pitch = f32_1\<rparr> = ascii ''[09C]''
   \<and> get_char \<lparr>value = 0x10C, volume = 100, pitch = f32_1\<rparr> = ascii ''[10C]''
   \<and> get_char \<lparr>value = 0x200, volume = 100, pitch = f32_1\<rparr> = ascii ''[200]''"
  using get_char_table [of "\<lparr>value = 0x01, volume = 100, pitch = f32_1\<rparr>"]
    get_char_table [of "\<lparr>value = 0x56, volume = 100, pitch = f32_1\<rparr>"]
    get_char_table [of "\<lparr>value = 0x57, volume = 100, pitch = f32_1\<rparr>"]
    get_char_table [of "\<lparr>value = 0x60, volume = 100, pitch = f32_1\<rparr>"]
    get_char_table [of "\<lparr>value = 0x61, volume = 100, pitch = f32_1\<rparr>"]
    get_char_table [of "\<lparr>value = 0x7A, volume = 100, pitch = f32_1\<rparr>"]
    get_char_table [of "\<lparr>value = 0x9F, volume = 100, pitch = f32_1\<rparr>"]
    get_char_table [of "\<lparr>value = 0xA3, volume = 100, pitch = f32_1\<rparr>"]
    get_char_table [of "\<lparr>value = 0x10D, volume = 100, pitch = f32_1\<rparr>"]
    get_char_table [of "\<lparr>value = 0x00, volume = 100, pitch = f32_1\<rparr>"]
    get_char_table [of "\<lparr>value = 0x9C, volume = 100, pitch = f32_1\<rparr>"]
    get_char_table [of "\<lparr>value = 0x10C, volume = 100, pitch = f32_1\<rparr>"]
    get_char_table [of "\<lparr>value = 0x200, volume = 100, pitch = f32_1\<rparr>"]
  by (simp add: str_int_def dec_digits.simps ascii_def format_0X_def zero_pad_def hex_digits.simps hex_digit_def replicate_numeral)

section \<open>Labels\<close>

text \<open>
  Claim C7. After registering a hash under the name \<^verbatim>\<open>Foo\<close>, the label resolved from
  that hash displays as \<^verbatim>\<open>Foo\<close>. A hash that is not registered resolves to a label
  with no name, displayed as an underscore followed by \<^verbatim>\<open>format(hash, '08X')\<close>; for a
  hash of 32 bits these are exactly eight uppercase hexadecimal digits that denote the
  hash. The unregistered hash 0xDEADBEEF displays as \<^verbatim>\<open>_DEADBEEF\<close>.
\<close>

theorem label_resolution:
  "LBLILabel_str (from_hash (register hashes h (ascii ''Foo'')) h) = ascii ''Foo''
   \<and> (hashes h = None \<longrightarrow>
        name (from_hash hashes h) = None
        \<and> LBLILabel_str (from_hash hashes h) = ascii ''_'' @ format_0X 8 h)
   \<and> (0 \<le> h \<and> h < 2 ^ 32 \<longrightarrow>
        length (format_0X 8 h) = 8
        \<and> (\<forall>ch \<in> set (format_0X 8 h). is_upper_hex ch)
        \<and> int (hex_value (format_0X 8 h)) = h)
   \<and> LBLILabel_str (from_hash Map.empty 0xDEADBEEF) = ascii ''_DEADBEEF''"
proof -
  have 1: "LBLILabel_str (from_hash (register hashes h (ascii ''Foo'')) h) = ascii ''Foo''"
    by (simp add: LBLILabel_str_def from_hash_def register_def ascii_def)
  have 2: "name (from_hash hashes h) = None
        \<and> LBLILabel_str (from_hash hashes h) = ascii ''_'' @ format_0X 8 h" if "hashes h = None"
    using that by (simp add: LBLILabel_str_def from_hash_def ascii_def)
  have 3: "LBLILabel_str (from_hash Map.empty 0xDEADBEEF) = ascii ''_DEADBEEF''"
    by (simp add: LBLILabel_str_def from_hash_def ascii_def format_0X_def zero_pad_def
        hex_digits.simps hex_digit_def)
  from 1 2 3 format_0X_8 [of h] show ?thesis by blast
qed

text \<open>The hash 0x1234, registered and unregistered.\<close>

theorem label_resolution_witness:
  "LBLILabel_str (from_hash (register Map.empty 0x1234 (ascii ''Foo'')) 0x1234) = ascii ''Foo''
   \<and> name (from_hash Map.empty 0x1234) = None
   \<and> LBLILabel_str (from_hash Map.empty 0x1234) = ascii ''_00001234''
   \<and> length (format_0X 8 0x1234) = 8
   \<and> hex_value (format_0X 8 0x1234) = 0x1234"
  using label_resolution [of Map.empty "0x1234"]
  by (simp add: ascii_def format_0X_def zero_pad_def hex_digits.simps hex_digit_def replicate_numeral)

text \<open>
  Claim C9. A hash registered under the empty name resolves to a label that carries the
  empty name, and yet displays in the underscore-and-hexadecimal form, not as the empty
  text: \<^verbatim>\<open>__str__\<close> tests whether the name is truthy. For a hash of 32 bits the display
  is nine characters: an underscore, then eight uppercase hexadecimal digits that denote
  the hash.
\<close>

theorem empty_name_displays_hash:
  "name (from_hash (register hashes h []) h) = Some []
   \<and> LBLILabel_str (from_hash (register hashes h []) h) = ascii ''_'' @ format_0X 8 h
   \<and> LBLILabel_str (from_hash (register hashes h []) h) \<noteq> []
   \<and> (0 \<le> h \<and> h < 2 ^ 32 \<longrightarrow>
        length (LBLILabel_str (from_hash (register hashes h []) h)) = 9
        \<and> hd (LBLILabel_str (from_hash (register hashes h []) h)) = 95
        \<and> (\<forall>ch \<in> set (tl (LBLILabel_str (from_hash (register hashes h []) h))). is_upper_hex ch)
        \<and> int (hex_value (tl (LBLILabel_str (from_hash (register hashes h []) h)))) = h)"
proof -
  have d: "LBLILabel_str (from_hash (register hashes h []) h) = 95 # format_0X 8 h"
    by (simp add: LBLILabel_str_def from_hash_def register_def)
  have n: "name (from_hash (register hashes h []) h) = Some []"
    by (simp add: from_hash_def register_def)
  from d n format_0X_8 [of h] show ?thesis
    by (simp add: ascii_def)
qed

text \<open>The hashes 0xDEADBEEF and 0x2A, each registered under the empty name.\<close>

theorem empty_name_displays_hash_witness:
  "name (from_hash (register Map.empty 0xDEADBEEF []) 0xDEADBEEF) = Some []
   \<and> LBLILabel_str (from_hash (register Map.empty 0xDEADBEEF []) 0xDEADBEEF) = ascii ''_DEADBEEF''
   \<and> LBLILabel_str (from_hash (register Map.empty 0x2A []) 0x2A) = ascii ''_0000002A''
   \<and> hex_value (tl (LBLILabel_str (from_hash (register Map.empty 0x2A []) 0x2A))) = 0x2A"
  using empty_name_displays_hash [of Map.empty "0xDEADBEEF"]
    empty_name_displays_hash [of Map.empty "0x2A"]
  by (simp add: ascii_def format_0X_def zero_pad_def hex_digits.simps hex_digit_def
      replicate_numeral hex_value_def hex_digit_value_def)

section \<open>The renderer's markers\<close>

lemma f32_consts:
  "\<not> f32_is_nan f32_0" "\<not> f32_is_nan f32_1" "\<not> f32_is_nan f32_2"
  "f32_key f32_0 = 0" "f32_key f32_1 = 0x3F800000" "f32_key f32_2 = 0x40000000"
  by (simp_all add: f32_is_nan_def f32_key_def f32_0_def f32_1_def f32_2_def)

lemma f32_eq_refl: "\<not> f32_is_nan x \<Longrightarrow> f32_eq x x"
  by (simp add: f32_eq_def)

lemma f32_lt_irrefl: "\<not> f32_lt x x"
  by (simp add: f32_lt_def)

lemma render_loop_zero_pitch:
  "\<forall>c \<in> set cs. volume c = 100 \<and> pitch c = f32_0 \<Longrightarrow>
     fst (render_loop fs s 100 p cs) = s @ concat (map get_char cs)"
  by (induction cs arbitrary: s p) (simp_all add: f32_eq_refl f32_consts)

lemma render_loop_same_pitch:
  "\<not> f32_is_nan p \<Longrightarrow> \<forall>c \<in> set cs. volume c = 100 \<and> pitch c = p \<Longrightarrow>
     fst (render_loop fs s 100 p cs) = s @ concat (map get_char cs)"
  by (induction cs arbitrary: s) (simp_all add: f32_eq_refl)

lemma zero_pad_elem: "ch \<in> set (zero_pad w ds) \<Longrightarrow> ch = 48 \<or> ch \<in> set ds"
  by (auto simp: zero_pad_def)

lemma hex_digits_below: "ch \<in> set (zero_pad w (hex_digits n)) \<Longrightarrow> ch < 123"
  using zero_pad_elem [of ch w "hex_digits n"] hex_digits_set [of ch n]
  by (auto simp: is_upper_hex_def)

lemma format_0X_no_brace: "ch \<in> set (format_0X w n) \<Longrightarrow> ch < 123"
  using hex_digits_below [of ch w "nat n"] hex_digits_below [of ch "w - 1" "nat (- n)"]
  by (auto simp: format_0X_def split: if_splits)

lemma get_char_no_brace: "ch \<in> set (get_char c) \<Longrightarrow> ch \<noteq> 123 \<and> ch \<noteq> 125"
proof -
  assume a: "ch \<in> set (get_char c)"
  show ?thesis
  proof (cases "map_of LOOKUP (value c)")
    case None
    with a show ?thesis
      using format_0X_no_brace [of ch 3 "value c"]
      by (auto simp: get_char_def ascii_def split: if_splits)
  next
    case (Some g)
    then have "(value c, g) \<in> set LOOKUP" by (rule map_of_SomeD)
    then have "\<forall>x \<in> set g. x \<noteq> 123 \<and> x \<noteq> 125" by (auto simp: LOOKUP_def ascii_def)
    with a Some show ?thesis
      by (auto simp: get_char_def split: if_splits)
  qed
qed

lemma str_int_50: "str_int 50 = ascii ''50''"
  by (simp add: str_int_def dec_digits.simps ascii_def)

lemma float_str_integral_consts:
  "float_str_integral f32_1 = ascii ''1.0''" "float_str_integral f32_2 = ascii ''2.0''"
  by (simp_all add: float_str_integral_def f32_trunc_def f32_1_def f32_2_def dec_digits.simps
      ascii_def drop_bit_eq_div)

lemma f32_0_neq_2: "f32_0 \<noteq> f32_2"
  by (simp add: f32_0_def f32_2_def)

text \<open>
  Claim C8. When every record has volume 100 and pitch 1.0, and likewise when every
  record has volume 100 and pitch 0.0, the rendered text has no marker: it is the
  concatenation of the glyphs of the records, in order.
\<close>

theorem render_defaults:
  assumes "(\<forall>c \<in> set cs. volume c = 100 \<and> pitch c = f32_1)
           \<or> (\<forall>c \<in> set cs. volume c = 100 \<and> pitch c = f32_0)"
  shows "render float_str cs = concat (map get_char cs)"
  using assms render_loop_zero_pitch [of cs float_str "[]" f32_1]
    render_loop_same_pitch [of f32_1 cs float_str "[]"]
  by (auto simp: render_def f32_consts)

text \<open>Two records, once at pitch 1.0 and once at pitch 0.0.\<close>

theorem render_defaults_witness:
  "render float_str_integral
     [\<lparr>value = 0x01, volume = 100, pitch = f32_1\<rparr>, \<lparr>value = 0xA3, volume = 100, pitch = f32_1\<rparr>]
     = [0x3041, 0x3002]
   \<and> render float_str_integral
     [\<lparr>value = 0x01, volume = 100, pitch = f32_0\<rparr>, \<lparr>value = 0xA3, volume = 100, pitch = f32_0\<rparr>]
     = [0x3041, 0x3002]"
  using render_defaults [of "[\<lparr>value = 0x01, volume = 100, pitch = f32_1\<rparr>, \<lparr>value = 0xA3, volume = 100, pitch = f32_1\<rparr>]" float_str_integral]
    render_defaults [of "[\<lparr>value = 0x01, volume = 100, pitch = f32_0\<rparr>, \<lparr>value = 0xA3, volume = 100, pitch = f32_0\<rparr>]" float_str_integral]
  by (simp add: get_char_def LOOKUP_def)

text \<open>
  Claim C3. For three records with volumes 100, 50, 100 and one constant pitch (not a
  NaN), the text is: the pitch marker of the first record when that pitch is neither 1.0
  nor 0.0, the first glyph, one opening marker \<^verbatim>\<open>{volume=50}\<close>, the second glyph, one
  closing marker \<^verbatim>\<open>{/volume}\<close>, the third glyph. The third record, back at 100, adds
  the closing marker and no opening one. No glyph contains a brace, so these two are the
  only volume markers of the text.
\<close>

theorem volume_run_closure:
  assumes "\<not> f32_is_nan p"
  shows "render float_str
           [\<lparr>value = v1, volume = 100, pitch = p\<rparr>,
            \<lparr>value = v2, volume = 50, pitch = p\<rparr>,
            \<lparr>value = v3, volume = 100, pitch = p\<rparr>]
         = (if \<not> f32_eq p f32_1 \<and> \<not> f32_eq p f32_0
            then ascii ''['' @ float_str p @ ascii '']''
                 @ (if f32_lt f32_1 p then up_arrow else [])
                 @ (if f32_lt p f32_1 then down_arrow else [])
            else [])
           @ get_char \<lparr>value = v1, volume = 100, pitch = p\<rparr>
           @ ascii ''{volume=50}''
           @ get_char \<lparr>value = v2, volume = 50, pitch = p\<rparr>
           @ ascii ''{/volume}''
           @ get_char \<lparr>value = v3, volume = 100, pitch = p\<rparr>
         \<and> (\<forall>ch \<in> set (get_char c). ch \<noteq> 123 \<and> ch \<noteq> 125)"
  using assms get_char_no_brace [of _ c]
  by (simp add: render_def f32_eq_refl str_int_50 ascii_def)

text \<open>The three records at pitch 1.0.\<close>

theorem volume_run_closure_witness:
  "render float_str_integral
           [\<lparr>value = 0x01, volume = 100, pitch = f32_1\<rparr>,
            \<lparr>value = 0x02, volume = 50, pitch = f32_1\<rparr>,
            \<lparr>value = 0x03, volume = 100, pitch = f32_1\<rparr>]
   = [0x3041] @ ascii ''{volume=50}'' @ [0x3042] @ ascii ''{/volume}'' @ [0x3043]"
  using volume_run_closure [of f32_1 float_str_integral 1 2 3 "\<lparr>value = 0x01, volume = 100, pitch = f32_1\<rparr>"]
  by (simp add: f32_consts f32_eq_def get_char_def)

text \<open>
  Claim C2, as the code has it. On pitches 1.0, 2.0, 1.0 at volume 100 the second record
  adds a pitch marker and an up arrow, the third a pitch marker and a down arrow. A
  record of pitch 0.0 that follows a running pitch of 2.0 adds no marker, and the
  running pitch becomes 0.0 (the loop assigns it on every record); so a following record
  of pitch 2.0 adds a marker and an up arrow again.
\<close>

theorem pitch_direction:
  "render float_str
     [\<lparr>value = v1, volume = 100, pitch = f32_1\<rparr>,
      \<lparr>value = v2, volume = 100, pitch = f32_2\<rparr>,
      \<lparr>value = v3, volume = 100, pitch = f32_1\<rparr>]
   = get_char \<lparr>value = v1, volume = 100, pitch = f32_1\<rparr>
     @ ascii ''['' @ float_str f32_2 @ ascii '']'' @ up_arrow
     @ get_char \<lparr>value = v2, volume = 100, pitch = f32_2\<rparr>
     @ ascii ''['' @ float_str f32_1 @ ascii '']'' @ down_arrow
     @ get_char \<lparr>value = v3, volume = 100, pitch = f32_1\<rparr>
   \<and> render_loop float_str s vol f32_2 [\<lparr>value = v, volume = vol, pitch = f32_0\<rparr>]
     = (s @ get_char \<lparr>value = v, volume = vol, pitch = f32_0\<rparr>, vol, f32_0)
   \<and> render_loop float_str s vol f32_0 [\<lparr>value = v, volume = vol, pitch = f32_2\<rparr>]
     = (s @ ascii ''['' @ float_str f32_2 @ ascii '']'' @ up_arrow
          @ get_char \<lparr>value = v, volume = vol, pitch = f32_2\<rparr>, vol, f32_2)"
  by (simp add: render_def f32_eq_def f32_lt_def f32_consts)

text \<open>
  The claim as stated fails on pitches 2.0, 0.0, 2.0: after the second record the
  running pitch is not 2.0, and the third record adds a second marker \<^verbatim>\<open>[2.0]\<close>.
\<close>

theorem pitch_zero_resets_baseline:
  "snd (snd (render_loop float_str_integral [] 100 f32_1
       [\<lparr>value = 0x01, volume = 100, pitch = f32_2\<rparr>,
        \<lparr>value = 0x01, volume = 100, pitch = f32_0\<rparr>])) \<noteq> f32_2
   \<and> render float_str_integral
       [\<lparr>value = 0x01, volume = 100, pitch = f32_2\<rparr>,
        \<lparr>value = 0x01, volume = 100, pitch = f32_0\<rparr>,
        \<lparr>value = 0x01, volume = 100, pitch = f32_2\<rparr>]
     = ascii ''[2.0]'' @ up_arrow @ [0x3041] @ [0x3041] @ ascii ''[2.0]'' @ up_arrow @ [0x3041]"
  by (simp add: render_def f32_eq_def f32_lt_def f32_consts get_char_def f32_0_neq_2
      float_str_integral_consts ascii_def)

section \<open>Character records on the wire\<close>

lemma four_Suc: "(4::nat) = Suc (Suc (Suc (Suc 0)))"
  by simp

lemma length_pack_le [simp]: "length (pack_le k n) = k"
  by (induction k arbitrary: n) simp_all



lemma pack_le_4: "pack_le 4 n = le_bytes32 n"
  by (simp add: le_bytes32_def four_Suc div_mult2_eq [symmetric])

lemma take_Suc_drop: "i < length xs \<Longrightarrow> take (Suc k) (drop i xs) = xs ! i # take k (drop (Suc i) xs)"
  by (simp add: Cons_nth_drop_Suc [symmetric])

lemma take4_drop:
  "i + 4 \<le> length xs \<Longrightarrow> take 4 (drop i xs) = [xs ! i, xs ! (i + 1), xs ! (i + 2), xs ! (i + 3)]"
  by (simp add: four_Suc take_Suc_drop numeral_3_eq_3)

lemma take1_drop: "i < length xs \<Longrightarrow> take (Suc 0) (drop i xs) = [xs ! i]"
  using take_Suc_drop [of i xs 0] by simp

lemma uint_at_4: "i + 4 \<le> length blob \<Longrightarrow> uint_at 4 blob i = le_read32 blob i"
  by (simp add: uint_at_def take4_drop le_read32_def)

lemma uint_at_1: "i < length blob \<Longrightarrow> uint_at (Suc 0) blob i = unat (blob ! i)"
  by (simp add: uint_at_def take1_drop)

lemma struct_pack_IIIfI:
  "struct_pack [I a, I b, I 0, F x, I 0] =
     (if 0 \<le> a \<and> a < 2 ^ 32 \<and> 0 \<le> b \<and> b < 2 ^ 32
      then Inr (pack_le 4 (nat a) @ pack_le 4 (nat b) @ pack_le 4 0 @ pack_le 4 (unat x) @ pack_le 4 0)
      else Inl StructError)"
  by simp

text \<open>
  Claim C5. \<open>LBLIChar_dump\<close> of a record whose value and volume are 32-bit numbers is
  exactly 20 bytes: the value, the volume, four zero bytes, the pitch, four zero bytes,
  each number least significant byte first; any other record raises \<^verbatim>\<open>struct.error\<close>.
  \<open>LBLIChar_load\<close> fails when the blob is shorter than offset + 20; otherwise it
  reads the value, the volume, a reserved 32-bit number and the pitch, and the single
  byte at offset + 16, and fails exactly when the reserved number or that byte is not
  zero. The bytes at offset + 17 to offset + 19, which \<open>LBLIChar_dump\<close> writes as
  zeros, are not read.
\<close>

theorem LBLIChar_layout:
  "(0 \<le> value c \<and> value c < 2 ^ 32 \<and> 0 \<le> volume c \<and> volume c < 2 ^ 32 \<longrightarrow>
      LBLIChar_dump c =
        Inr (le_bytes32 (nat (value c)) @ le_bytes32 (nat (volume c)) @ [0, 0, 0, 0]
             @ le_bytes32 (unat (pitch c)) @ [0, 0, 0, 0]))
   \<and> (\<not> (0 \<le> value c \<and> value c < 2 ^ 32 \<and> 0 \<le> volume c \<and> volume c < 2 ^ 32) \<longrightarrow>
        LBLIChar_dump c = Inl StructError)
   \<and> (\<forall>b. LBLIChar_dump c = Inr b \<longrightarrow> length b = 20)
   \<and> (length blob < offset + 20 \<longrightarrow> LBLIChar_load blob offset = Inl AssertionError)
   \<and> (offset + 20 \<le> length blob \<longrightarrow>
        LBLIChar_load blob offset =
          (if le_read32 blob (offset + 8) \<noteq> 0 \<or> blob ! (offset + 16) \<noteq> 0
           then Inl AssertionError
           else Inr \<lparr>value = int (le_read32 blob offset),
                     volume = int (le_read32 blob (offset + 4)),
                     pitch = of_nat (le_read32 blob (offset + 12))\<rparr>))"
proof -
  have z: "le_bytes32 0 = [0, 0, 0, 0]" by (simp add: le_bytes32_def)
  have 1: "LBLIChar_dump c =
        Inr (le_bytes32 (nat (value c)) @ le_bytes32 (nat (volume c)) @ [0, 0, 0, 0]
             @ le_bytes32 (unat (pitch c)) @ [0, 0, 0, 0])"
    if "0 \<le> value c \<and> value c < 2 ^ 32 \<and> 0 \<le> volume c \<and> volume c < 2 ^ 32"
    using that unfolding LBLIChar_dump_def struct_pack_IIIfI by (simp add: pack_le_4 z)
  have 5: "LBLIChar_dump c = Inl StructError"
    if "\<not> (0 \<le> value c \<and> value c < 2 ^ 32 \<and> 0 \<le> volume c \<and> volume c < 2 ^ 32)"
    using that unfolding LBLIChar_dump_def struct_pack_IIIfI by simp
  have 2: "length b = 20" if "LBLIChar_dump c = Inr b" for b
    using that unfolding LBLIChar_dump_def struct_pack_IIIfI by (auto split: if_splits)
  have 3: "LBLIChar_load blob offset = Inl AssertionError" if "length blob < offset + 20"
    using that by (simp add: LBLIChar_load_def LBLIChar_SIZE_def)
  have 4: "LBLIChar_load blob offset =
          (if le_read32 blob (offset + 8) \<noteq> 0 \<or> blob ! (offset + 16) \<noteq> 0
           then Inl AssertionError
           else Inr \<lparr>value = int (le_read32 blob offset),
                     volume = int (le_read32 blob (offset + 4)),
                     pitch = of_nat (le_read32 blob (offset + 12))\<rparr>)"
    if "offset + 20 \<le> length blob"
    using that
    by (simp add: LBLIChar_load_def LBLIChar_SIZE_def unpack_from_IIIfB_def f32_at_def
        uint_at_4 uint_at_1 unat_eq_0)
  from 1 2 3 4 5 show ?thesis by simp
qed

text \<open>
  One record written, and read back from a blob whose last three bytes are not zero.
\<close>

theorem LBLIChar_layout_witness:
  "LBLIChar_dump \<lparr>value = 0x12345678, volume = 100, pitch = f32_1\<rparr>
     = Inr [0x78, 0x56, 0x34, 0x12, 100, 0, 0, 0, 0, 0, 0, 0, 0, 0, 0x80, 0x3F, 0, 0, 0, 0]
   \<and> LBLIChar_load
       [0x78, 0x56, 0x34, 0x12, 100, 0, 0, 0, 0, 0, 0, 0, 0, 0, 0x80, 0x3F, 0, 7, 8, 9] 0
     = Inr \<lparr>value = 0x12345678, volume = 100, pitch = f32_1\<rparr>"
  using LBLIChar_layout [of "\<lparr>value = 0x12345678, volume = 100, pitch = f32_1\<rparr>"
      "[0x78, 0x56, 0x34, 0x12, 100, 0, 0, 0, 0, 0, 0, 0, 0, 0, 0x80, 0x3F, 0, 7, 8, 9]" 0]
  by (simp add: le_bytes32_def le_read32_def f32_1_def)

text \<open>
  Claim C10. Two blobs of equal length that agree on the 17 bytes from the offset give
  the same result of \<open>LBLIChar_load\<close>, failure or record, whatever the bytes after
  them are.
\<close>

theorem load_ignores_last_three_bytes:
  assumes "length b1 = length b2"
    and "take 17 (drop offset b1) = take 17 (drop offset b2)"
  shows "LBLIChar_load b1 offset = LBLIChar_load b2 offset"
proof -
  have sub: "take k (drop (offset + j) b1) = take k (drop (offset + j) b2)" if "j + k \<le> 17" for j k
  proof -
    have "take k (drop j (take 17 (drop offset b1))) = take k (drop j (take 17 (drop offset b2)))"
      using assms(2) by simp
    moreover from that have "min k (17 - j) = k" by simp
    ultimately show ?thesis by (simp add: drop_take add.commute)
  qed
  have "uint_at 4 b1 offset = uint_at 4 b2 offset"
    using sub [of 0 4] by (simp add: uint_at_def)
  moreover have "uint_at 4 b1 (offset + 4) = uint_at 4 b2 (offset + 4)"
    using sub [of 4 4] by (simp add: uint_at_def)
  moreover have "uint_at 4 b1 (offset + 8) = uint_at 4 b2 (offset + 8)"
    using sub [of 8 4] by (simp add: uint_at_def)
  moreover have "uint_at 4 b1 (offset + 12) = uint_at 4 b2 (offset + 12)"
    using sub [of 12 4] by (simp add: uint_at_def)
  moreover have "uint_at 1 b1 (offset + 16) = uint_at 1 b2 (offset + 16)"
    using sub [of 16 1] by (simp add: uint_at_def)
  ultimately show ?thesis
    using assms(1) by (simp add: LBLIChar_load_def unpack_from_IIIfB_def f32_at_def)
qed


text \<open>Two blobs that differ in the last three bytes of the record only.\<close>

theorem load_ignores_last_three_bytes_witness:
  "LBLIChar_load [1, 0, 0, 0, 100, 0, 0, 0, 0, 0, 0, 0, 0, 0, 0x80, 0x3F, 0, 0xAA, 0xBB, 0xCC] 0
   = LBLIChar_load [1, 0, 0, 0, 100, 0, 0, 0, 0, 0, 0, 0, 0, 0, 0x80, 0x3F, 0, 0, 0, 0] 0"
  using load_ignores_last_three_bytes
    [of "[1, 0, 0, 0, 100, 0, 0, 0, 0, 0, 0, 0, 0, 0, 0x80, 0x3F, 0, 0xAA, 0xBB, 0xCC]"
        "[1, 0, 0, 0, 100, 0, 0, 0, 0, 0, 0, 0, 0, 0, 0x80, 0x3F, 0, 0, 0, 0]" 0]
  by simp

section \<open>Iteration that stops at the first exception\<close>

lemma for_append_all_Inr: "\<forall>x \<in> set xs. f x = Inr (g x) \<Longrightarrow> for_append f xs = Inr (map g xs)"
  by (induction xs) simp_all



lemma for_append_Inr_iff:
  "for_append f xs = Inr ys \<longleftrightarrow>
     length ys = length xs \<and> (\<forall>i < length xs. f (xs ! i) = Inr (ys ! i))"
proof (induction xs arbitrary: ys)
  case Nil
  then show ?case by auto
next
  case (Cons x xs)
  show ?case
  proof (cases ys)
    case Nil
    then show ?thesis by (auto split: sum.splits)
  next
    case (Cons y ys')
    with Cons.IH [of ys'] show ?thesis
      by (auto simp: nth_Cons' less_Suc_eq_0_disj split: sum.splits)
  qed
qed

lemma for_append_Inl:
  "for_append f xs = Inl e \<Longrightarrow> \<exists>x \<in> set xs. f x = Inl e"
  by (induction xs) (auto split: sum.splits)

lemma for_append_fails:
  "x \<in> set xs \<Longrightarrow> f x = Inl e \<Longrightarrow> \<exists>e'. for_append f xs = Inl e'"
  by (induction xs) (auto split: sum.splits)

section \<open>Encoding and decoding a container\<close>

subsection \<open>Reading what was packed\<close>



lemma length_char_bytes [simp]: "length (char_bytes c) = 20"
  by (simp add: char_bytes_def)

lemma length_entry_bytes [simp]: "length (entry_bytes l r) = 16"
  by (simp add: entry_bytes_def LBLI_MAGIC_def)

lemma length_header_bytes [simp]: "length (header_bytes n) = 20"
  by (simp add: header_bytes_def BDLI_MAGIC_def)

lemma length_pool_bytes [simp]: "length (pool_bytes l) = 20 * length (chars l)"
  by (simp add: pool_bytes_def length_concat comp_def sum_list_triv)

lemma length_entry_table [simp]: "length (concat (entry_table ls lo co)) = 16 * length ls"
  by (induction ls arbitrary: lo co) simp_all

lemma length_pools: "length (concat (map pool_bytes ls)) = 20 * total_chars ls"
  by (induction ls) (simp_all add: total_chars_def)

subsection \<open>What dump writes\<close>

lemma LBLIChar_dump_iff:
  "LBLIChar_dump c = (if wf_char c then Inr (char_bytes c) else Inl StructError)"
  by (simp add: LBLIChar_dump_def wf_char_def char_bytes_def)

lemma dump_chars_iff:
  "for_append LBLIChar_dump cs =
     (if \<forall>c \<in> set cs. wf_char c then Inr (map char_bytes cs) else Inl StructError)"
  by (induction cs) (simp_all add: LBLIChar_dump_iff)

lemma LBLI_dump_iff:
  assumes "lo \<le> co"
  shows "LBLI_dump l (int co - int lo) =
           (if length (chars l) < 2 ^ 32 \<and> co - lo < 2 ^ 32
               \<and> 0 \<le> hash (label l) \<and> hash (label l) < 2 ^ 32
            then Inr (entry_bytes l (co - lo)) else Inl StructError)"
proof -
  have "LBLI_dump l (int (co - lo)) =
           (if length (chars l) < 2 ^ 32 \<and> co - lo < 2 ^ 32
               \<and> 0 \<le> hash (label l) \<and> hash (label l) < 2 ^ 32
            then Inr (entry_bytes l (co - lo)) else Inl StructError)"
    by (simp add: LBLI_dump_def entry_bytes_def)
  moreover from assms have "int co - int lo = int (co - lo)" by simp
  ultimately show ?thesis by (simp only:)
qed

lemma dump_loop_iff:
  assumes "lo + 16 * length ls \<le> co"
  shows "dump_loop ls lblis cs lo co =
           (if fits ls lo co
            then Inr (lblis @ entry_table ls lo co,
                      cs @ concat (map (\<lambda>l. map char_bytes (chars l)) ls))
            else Inl StructError)"
  using assms
proof (induction ls arbitrary: lblis cs lo co)
  case Nil
  then show ?case by simp
next
  case (Cons l ls)
  from Cons.prems have le: "lo \<le> co" by simp
  from Cons.prems have a: "lo + 16 + 16 * length ls \<le> co + 20 * length (chars l)" by simp
  note 1 = LBLI_dump_iff [OF le, of l]
  note 2 = dump_chars_iff [of "chars l"]
  note 3 = Cons.IH [OF a, of "lblis @ [entry_bytes l (co - lo)]" "cs @ map char_bytes (chars l)"]
  show ?case
    using 3 by (auto simp: 1 2 LBLI_SIZE_def LBLIChar_SIZE_def mult.commute wf_entry_def)
qed

lemma concat_pools:
  "concat (concat (map (\<lambda>l. map char_bytes (chars l)) ls)) = concat (map pool_bytes ls)"
  by (induction ls) (simp_all add: pool_bytes_def)

lemma total_chars_Cons: "total_chars (l # ls) = length (chars l) + total_chars ls"
  by (simp add: total_chars_def)

lemma fits_iff:
  assumes "lo + 16 * length ls \<le> co"
  shows "fits ls lo co \<longleftrightarrow>
           (\<forall>i < length ls.
              wf_entry (ls ! i) \<and> length (chars (ls ! i)) < 2 ^ 32
              \<and> co - lo - 16 * i + 20 * total_chars (take i ls) < 2 ^ 32)"
  using assms
proof (induction ls arbitrary: lo co)
  case Nil
  then show ?case by simp
next
  case (Cons l ls)
  let ?co = "co + 20 * length (chars l)"
  from Cons.prems have a: "lo + 16 + 16 * length ls \<le> ?co" by simp
  have shift: "?co - (lo + 16) - 16 * j + 20 * total_chars (take j ls)
      = co - lo - 16 * Suc j + 20 * total_chars (take (Suc j) (l # ls))" if "j < length ls" for j
    using that Cons.prems by (simp add: total_chars_Cons)
  have "fits (l # ls) lo co \<longleftrightarrow>
      wf_entry l \<and> length (chars l) < 2 ^ 32 \<and> co - lo < 2 ^ 32
      \<and> (\<forall>j < length ls.
            wf_entry (ls ! j) \<and> length (chars (ls ! j)) < 2 ^ 32
            \<and> ?co - (lo + 16) - 16 * j + 20 * total_chars (take j ls) < 2 ^ 32)"
    using Cons.IH [OF a] by simp
  also have "\<dots> \<longleftrightarrow>
      wf_entry l \<and> length (chars l) < 2 ^ 32 \<and> co - lo < 2 ^ 32
      \<and> (\<forall>j < length ls.
            wf_entry ((l # ls) ! Suc j) \<and> length (chars ((l # ls) ! Suc j)) < 2 ^ 32
            \<and> co - lo - 16 * Suc j + 20 * total_chars (take (Suc j) (l # ls)) < 2 ^ 32)"
    using shift by auto
  also have "\<dots> \<longleftrightarrow>
      (\<forall>i < length (l # ls).
            wf_entry ((l # ls) ! i) \<and> length (chars ((l # ls) ! i)) < 2 ^ 32
            \<and> co - lo - 16 * i + 20 * total_chars (take i (l # ls)) < 2 ^ 32)"
    by (simp add: All_less_Suc2 total_chars_def)
  finally show ?case .
qed

lemma encodable_fits:
  "encodable c \<longleftrightarrow>
     length (lbli c) < 2 ^ 16 \<and> fits (lbli c) 20 (20 + 16 * length (lbli c))"
proof -
  have "20 + 16 * length (lbli c) - 20 - 16 * i = 16 * (length (lbli c) - i)" for i
    by (simp add: diff_mult_distrib2)
  then show ?thesis
    using fits_iff [of 20 "lbli c" "20 + 16 * length (lbli c)"]
    by (simp add: encodable_def rel_offset_def)
qed

lemma BDLI_dump_iff:
  "BDLI_dump c =
     (if encodable c
      then Inr (header_bytes (length (lbli c))
                @ concat (entry_table (lbli c) 20 (20 + 16 * length (lbli c)))
                @ concat (map pool_bytes (lbli c)))
      else Inl StructError)"
proof -
  let ?n = "length (lbli c)"
  have hdr: "struct_pack [H 2, H (int ?n), I 0, I (int 20), I (int (20 + ?n * 16))] =
      (if ?n < 2 ^ 16
       then Inr (pack_le 2 2 @ pack_le 2 ?n @ pack_le 4 0 @ pack_le 4 20 @ pack_le 4 (20 + 16 * ?n))
       else Inl StructError)"
  proof -
    have "nat (20 + int ?n * 16) = 20 + ?n * 16" by arith
    then show ?thesis by (simp add: mult.commute)
  qed
  have loop: "dump_loop (lbli c) [] [] 20 (20 + ?n * 16) =
      (if fits (lbli c) 20 (20 + 16 * ?n)
       then Inr (entry_table (lbli c) 20 (20 + 16 * ?n),
                 concat (map (\<lambda>l. map char_bytes (chars l)) (lbli c)))
       else Inl StructError)"
    using dump_loop_iff [of 20 "lbli c" "20 + 16 * ?n" "[]" "[]"] by (simp add: mult.commute)
  show ?thesis
    unfolding BDLI_dump_def Let_def BDLI_SIZE_def LBLI_SIZE_def hdr loop encodable_fits
    by (simp add: header_bytes_def concat_pools)
qed

subsection \<open>What load reads back\<close>











lemma BDLI_dump_error: "BDLI_dump c = Inl e \<Longrightarrow> e = StructError"
  by (simp add: BDLI_dump_iff split: if_splits)




text \<open>
  The bound on the relative offsets is the one the code has: one entry of 214748365
  records is written, while 214748364 records followed by a second entry put that
  entry's relative offset at \<open>2 ^ 32\<close>, which \<^verbatim>\<open>struct\<close> refuses.
\<close>

lemma dump_accepts_one_long_entry:
  "\<exists>blob. BDLI_dump \<lparr>lbli =
     [\<lparr>label = \<lparr>hash = 0, name = None\<rparr>,
       chars = replicate 214748365 \<lparr>value = 1, volume = 100, pitch = f32_1\<rparr>\<rparr>]\<rparr> = Inr blob"
  by (simp add: BDLI_dump_iff encodable_def rel_offset_def total_chars_def wf_entry_def
      wf_char_def)

lemma dump_rejects_offset_of_33_bits:
  "BDLI_dump \<lparr>lbli =
     [\<lparr>label = \<lparr>hash = 0, name = None\<rparr>,
       chars = replicate 214748364 \<lparr>value = 1, volume = 100, pitch = f32_1\<rparr>\<rparr>,
      \<lparr>label = \<lparr>hash = 1, name = None\<rparr>, chars = []\<rparr>]\<rparr> = Inl StructError"
proof -
  have "\<not> rel_offset
     [\<lparr>label = \<lparr>hash = 0, name = None\<rparr>,
       chars = replicate 214748364 \<lparr>value = 1, volume = 100, pitch = f32_1\<rparr>\<rparr>,
      \<lparr>label = \<lparr>hash = 1, name = None\<rparr>, chars = []\<rparr>] 1 < 2 ^ 32"
    by (simp add: rel_offset_def total_chars_def)
  then show ?thesis
    by (auto simp: BDLI_dump_iff encodable_def)
qed

subsection \<open>Failures of load\<close>

lemma LBLIChar_load_cases:
  "LBLIChar_load blob i =
     (if length blob < i + 20 \<or> uint_at 4 blob (i + 8) \<noteq> 0 \<or> uint_at 1 blob (i + 16) \<noteq> 0
      then Inl AssertionError
      else Inr \<lparr>value = int (uint_at 4 blob i), volume = int (uint_at 4 blob (i + 4)),
                pitch = f32_at blob (i + 12)\<rparr>)"
  by (simp add: LBLIChar_load_def LBLIChar_SIZE_def unpack_from_IIIfB_def)

lemma LBLIChar_load_error: "LBLIChar_load blob i = Inl e \<Longrightarrow> e = AssertionError"
  by (simp add: LBLIChar_load_cases split: if_splits)

lemma for_append_error:
  assumes "for_append f xs = Inl e" "\<And>x e. f x = Inl e \<Longrightarrow> e = AssertionError"
  shows "e = AssertionError"
  using for_append_Inl [OF assms(1)] assms(2) by blast

lemma LBLI_load_cases:
  "LBLI_load hashes blob i =
     (if length blob < i + 16 \<or> take 4 (drop i blob) \<noteq> LBLI_MAGIC then Inl AssertionError
      else case for_append (\<lambda>k. LBLIChar_load blob (i + uint_at 4 blob (i + 8) + 20 * k))
                  [0..<uint_at 4 blob (i + 4)] of
        Inl e \<Rightarrow> Inl e
      | Inr cs \<Rightarrow> Inr \<lparr>label = from_hash hashes (int (uint_at 4 blob (i + 12))), chars = cs\<rparr>)"
  unfolding LBLI_load_def Let_def LBLI_SIZE_def LBLIChar_SIZE_def unpack_from_III_def
    add.assoc [of i 4]
  by simp

lemma LBLI_load_error: "LBLI_load hashes blob i = Inl e \<Longrightarrow> e = AssertionError"
  using for_append_error [of "\<lambda>k. LBLIChar_load blob (i + uint_at 4 blob (i + 8) + 20 * k)"
      "[0..<uint_at 4 blob (i + 4)]" e] LBLIChar_load_error
  by (auto simp: LBLI_load_cases split: if_splits sum.splits)

lemma BDLI_load_cases:
  "BDLI_load hashes blob i =
     (if length blob < i + 20 \<or> take 4 (drop i blob) \<noteq> BDLI_MAGIC
         \<or> uint_at 2 blob (i + 4) \<noteq> 2 \<or> uint_at 4 blob (i + 8) \<noteq> 0
      then Inl AssertionError
      else case for_append (\<lambda>k. LBLI_load hashes blob (i + uint_at 4 blob (i + 12) + 16 * k))
                  [0..<uint_at 2 blob (i + 6)] of
        Inl e \<Rightarrow> Inl e
      | Inr ls \<Rightarrow> Inr \<lparr>lbli = ls\<rparr>)"
  unfolding BDLI_load_def Let_def BDLI_SIZE_def LBLI_SIZE_def unpack_from_HHIII_def
    add.assoc [of i 4]
  by simp

lemma BDLI_load_error: "BDLI_load hashes blob i = Inl e \<Longrightarrow> e = AssertionError"
  using for_append_error [of "\<lambda>k. LBLI_load hashes blob (i + uint_at 4 blob (i + 12) + 16 * k)"
      "[0..<uint_at 2 blob (i + 6)]" e] LBLI_load_error
  by (auto simp: BDLI_load_cases split: if_splits sum.splits)

lemma for_append_upt_fails:
  assumes "k < n" "f k = Inl e" "\<And>x e. f x = Inl e \<Longrightarrow> e = AssertionError"
  shows "for_append f [0..<n] = Inl AssertionError"
proof -
  from assms(1) have "k \<in> set [0..<n]" by simp
  with for_append_fails [of k "[0..<n]" f e] assms(2)
  obtain e' where e': "for_append f [0..<n] = Inl e'"
    by blast
  with for_append_error [OF e' assms(3)] show ?thesis by simp
qed

text \<open>
  Claim C4. \<open>BDLI_load\<close> fails with an assertion error when the blob is shorter than
  the header, when the magic is not \<^verbatim>\<open>BDLI\<close>, when the version is not 2, when the
  reserved field is not zero, and when the load of any of the entries it counts fails.
  \<open>LBLI_load\<close> fails when the blob is shorter than the entry, when the magic is not
  \<^verbatim>\<open>LBLI\<close>, and when the load of any of its records fails; \<open>LBLIChar_load\<close> fails on a
  short blob and on a reserved field that is not zero. A result is either the error or
  a whole container: when \<open>BDLI_load\<close> returns one, it has as many entries as the header
  counts and each is the entry loaded from its place, and likewise every entry has all
  its records.
\<close>

theorem load_fails_or_is_complete:
  "(length blob < offset + 20
      \<or> take 4 (drop offset blob) \<noteq> BDLI_MAGIC
      \<or> uint_at 2 blob (offset + 4) \<noteq> 2
      \<or> uint_at 4 blob (offset + 8) \<noteq> 0
      \<or> (\<exists>k < uint_at 2 blob (offset + 6). \<exists>e.
            LBLI_load hashes blob (offset + uint_at 4 blob (offset + 12) + 16 * k) = Inl e)
      \<longrightarrow> BDLI_load hashes blob offset = Inl AssertionError)
   \<and> (length blob < eo + 16
      \<or> take 4 (drop eo blob) \<noteq> LBLI_MAGIC
      \<or> (\<exists>k < uint_at 4 blob (eo + 4). \<exists>e.
            LBLIChar_load blob (eo + uint_at 4 blob (eo + 8) + 20 * k) = Inl e)
      \<longrightarrow> LBLI_load hashes blob eo = Inl AssertionError)
   \<and> (length blob < co + 20 \<or> uint_at 4 blob (co + 8) \<noteq> 0 \<or> uint_at 1 blob (co + 16) \<noteq> 0
      \<longrightarrow> LBLIChar_load blob co = Inl AssertionError)
   \<and> (\<forall>c. BDLI_load hashes blob offset = Inr c \<longrightarrow>
         length (lbli c) = uint_at 2 blob (offset + 6)
         \<and> (\<forall>k < length (lbli c).
               LBLI_load hashes blob (offset + uint_at 4 blob (offset + 12) + 16 * k)
                 = Inr (lbli c ! k)))
   \<and> (\<forall>l. LBLI_load hashes blob eo = Inr l \<longrightarrow>
         length (chars l) = uint_at 4 blob (eo + 4)
         \<and> (\<forall>k < length (chars l).
               LBLIChar_load blob (eo + uint_at 4 blob (eo + 8) + 20 * k) = Inr (chars l ! k)))"
proof -
  let ?fe = "\<lambda>k. LBLI_load hashes blob (offset + uint_at 4 blob (offset + 12) + 16 * k)"
  let ?fc = "\<lambda>k. LBLIChar_load blob (eo + uint_at 4 blob (eo + 8) + 20 * k)"
  have 1: "BDLI_load hashes blob offset = Inl AssertionError"
    if "length blob < offset + 20 \<or> take 4 (drop offset blob) \<noteq> BDLI_MAGIC
      \<or> uint_at 2 blob (offset + 4) \<noteq> 2 \<or> uint_at 4 blob (offset + 8) \<noteq> 0
      \<or> (\<exists>k < uint_at 2 blob (offset + 6). \<exists>e. ?fe k = Inl e)"
  proof (cases "length blob < offset + 20 \<or> take 4 (drop offset blob) \<noteq> BDLI_MAGIC
      \<or> uint_at 2 blob (offset + 4) \<noteq> 2 \<or> uint_at 4 blob (offset + 8) \<noteq> 0")
    case True
    then show ?thesis by (simp add: BDLI_load_cases)
  next
    case False
    with that obtain k e where "k < uint_at 2 blob (offset + 6)" "?fe k = Inl e" by blast
    then have "for_append ?fe [0..<uint_at 2 blob (offset + 6)] = Inl AssertionError"
      using LBLI_load_error by (rule for_append_upt_fails)
    with False show ?thesis by (simp add: BDLI_load_cases)
  qed
  have 2: "LBLI_load hashes blob eo = Inl AssertionError"
    if "length blob < eo + 16 \<or> take 4 (drop eo blob) \<noteq> LBLI_MAGIC
      \<or> (\<exists>k < uint_at 4 blob (eo + 4). \<exists>e. ?fc k = Inl e)"
  proof (cases "length blob < eo + 16 \<or> take 4 (drop eo blob) \<noteq> LBLI_MAGIC")
    case True
    then show ?thesis by (simp add: LBLI_load_cases)
  next
    case False
    with that obtain k e where "k < uint_at 4 blob (eo + 4)" "?fc k = Inl e" by blast
    then have "for_append ?fc [0..<uint_at 4 blob (eo + 4)] = Inl AssertionError"
      using LBLIChar_load_error by (rule for_append_upt_fails)
    with False show ?thesis by (simp add: LBLI_load_cases)
  qed
  have 3: "LBLIChar_load blob co = Inl AssertionError"
    if "length blob < co + 20 \<or> uint_at 4 blob (co + 8) \<noteq> 0 \<or> uint_at 1 blob (co + 16) \<noteq> 0"
    using that by (simp add: LBLIChar_load_cases)
  have 4: "length (lbli c) = uint_at 2 blob (offset + 6)
         \<and> (\<forall>k < length (lbli c). ?fe k = Inr (lbli c ! k))"
    if "BDLI_load hashes blob offset = Inr c" for c
  proof -
    from that have "for_append ?fe [0..<uint_at 2 blob (offset + 6)] = Inr (lbli c)"
      by (auto simp: BDLI_load_cases split: if_splits sum.splits)
    then show ?thesis by (simp add: for_append_Inr_iff)
  qed
  have 5: "length (chars l) = uint_at 4 blob (eo + 4)
         \<and> (\<forall>k < length (chars l). ?fc k = Inr (chars l ! k))"
    if "LBLI_load hashes blob eo = Inr l" for l
  proof -
    from that have "for_append ?fc [0..<uint_at 4 blob (eo + 4)] = Inr (chars l)"
      by (auto simp: LBLI_load_cases split: if_splits sum.splits)
    then show ?thesis by (simp add: for_append_Inr_iff)
  qed
  from 1 2 3 4 5 show ?thesis by blast
qed


text \<open>
  A blob of four bytes, a header of version 3, a header that counts one entry beyond the
  end of the blob, an entry with a wrong magic, and a record whose reserved byte is 1.
\<close>

theorem load_fails_or_is_complete_witness:
  "BDLI_load Map.empty [0x42, 0x44, 0x4C, 0x49] 0 = Inl AssertionError
   \<and> BDLI_load Map.empty
       [0x42, 0x44, 0x4C, 0x49, 3, 0, 0, 0, 0, 0, 0, 0, 20, 0, 0, 0, 20, 0, 0, 0] 0
     = Inl AssertionError
   \<and> BDLI_load Map.empty
       [0x42, 0x44, 0x4C, 0x49, 2, 0, 1, 0, 0, 0, 0, 0, 20, 0, 0, 0, 36, 0, 0, 0] 0
     = Inl AssertionError
   \<and> LBLI_load Map.empty [0x4C, 0x42, 0x4C, 0x4A, 0, 0, 0, 0, 16, 0, 0, 0, 7, 0, 0, 0] 0
     = Inl AssertionError
   \<and> LBLIChar_load [1, 0, 0, 0, 100, 0, 0, 0, 0, 0, 0, 0, 0, 0, 0x80, 0x3F, 1, 0, 0, 0] 0
     = Inl AssertionError"
  using load_fails_or_is_complete
      [where blob = "[0x42, 0x44, 0x4C, 0x49]" and offset = 0 and hashes = Map.empty
        and eo = 0 and co = 0]
    load_fails_or_is_complete
      [where blob = "[0x42, 0x44, 0x4C, 0x49, 3, 0, 0, 0, 0, 0, 0, 0, 20, 0, 0, 0, 20, 0, 0, 0]"
        and offset = 0 and hashes = Map.empty and eo = 0 and co = 0]
    load_fails_or_is_complete
      [where blob = "[0x42, 0x44, 0x4C, 0x49, 2, 0, 1, 0, 0, 0, 0, 0, 20, 0, 0, 0, 36, 0, 0, 0]"
        and offset = 0 and hashes = Map.empty and eo = 20 and co = 0]
    load_fails_or_is_complete
      [where blob = "[0x4C, 0x42, 0x4C, 0x4A, 0, 0, 0, 0, 16, 0, 0, 0, 7, 0, 0, 0]"
        and offset = 0 and hashes = Map.empty and eo = 0 and co = 0]
    load_fails_or_is_complete
      [where blob = "[1, 0, 0, 0, 100, 0, 0, 0, 0, 0, 0, 0, 0, 0, 0x80, 0x3F, 1, 0, 0, 0]"
        and offset = 0 and hashes = Map.empty and eo = 0 and co = 0]
  by (simp add: uint_at_def BDLI_MAGIC_def LBLI_MAGIC_def)

end
